theory Spec2Isabelle
  imports Main "HOL-Library.Word"
begin

section \<open>Integer types of the instantiations\<close>

text \<open>
  The functions of \<^verbatim>\<open>utils.hpp\<close> are templates over integer types. The
  fixed-width types they are instantiated with are enumerated here; \<^verbatim>\<open>int\<close> is
  the 32-bit \<open>I32\<close> (the data model of every platform ROS runs on), a value of a
  type is a mathematical integer inside the type's range, and every conversion
  writes its wrap-around out.
\<close>

datatype ity = I8 | U8 | I16 | U16 | I32 | U32 | I64 | U64

fun is_signed :: "ity \<Rightarrow> bool" where
  "is_signed I8 = True"
| "is_signed U8 = False"
| "is_signed I16 = True"
| "is_signed U16 = False"
| "is_signed I32 = True"
| "is_signed U32 = False"
| "is_signed I64 = True"
| "is_signed U64 = False"

fun bits :: "ity \<Rightarrow> nat" where
  "bits I8 = 8"
| "bits U8 = 8"
| "bits I16 = 16"
| "bits U16 = 16"
| "bits I32 = 32"
| "bits U32 = 32"
| "bits I64 = 64"
| "bits U64 = 64"

text \<open>\<^verbatim>\<open>std::numeric_limits<T>::lowest()\<close> and \<^verbatim>\<open>std::numeric_limits<T>::max()\<close>.\<close>

definition lowest :: "ity \<Rightarrow> int" where
  "lowest T = (if is_signed T then - (2 ^ (bits T - 1)) else 0)"

definition max_of :: "ity \<Rightarrow> int" where
  "max_of T = (if is_signed T then 2 ^ (bits T - 1) - 1 else 2 ^ bits T - 1)"

definition in_range :: "ity \<Rightarrow> int \<Rightarrow> bool" where
  "in_range T v \<longleftrightarrow> lowest T \<le> v \<and> v \<le> max_of T"

text \<open>
  Conversion of an integer value to the type \<open>T\<close>: the value modulo \<open>2 ^ bits T\<close>,
  read as two's complement when \<open>T\<close> is signed.
\<close>

definition conv :: "ity \<Rightarrow> int \<Rightarrow> int" where
  "conv T v =
     (if is_signed T
      then (v + 2 ^ (bits T - 1)) mod 2 ^ bits T - 2 ^ (bits T - 1)
      else v mod 2 ^ bits T)"

text \<open>
  Integral promotion: a type narrower than \<^verbatim>\<open>int\<close> becomes \<^verbatim>\<open>int\<close>. The usual
  arithmetic conversions then pick the common type of the two operands of a
  comparison: with equal signedness the wider type; otherwise the unsigned type
  when it is at least as wide as the signed one, and the signed type when it is
  strictly wider (it then represents every value of the unsigned one).
\<close>

definition promote :: "ity \<Rightarrow> ity" where
  "promote T = (if bits T < 32 then I32 else T)"

definition common_type :: "ity \<Rightarrow> ity \<Rightarrow> ity" where
  "common_type A B =
     (let a = promote A; b = promote B in
      if a = b then a
      else if is_signed a = is_signed b then (if bits b \<le> bits a then a else b)
      else if is_signed a then (if bits a \<le> bits b then b else a)
      else (if bits b \<le> bits a then a else b))"

text \<open>
  The common type represents the values of both operand types: it is signed (and
  then at least as wide as both after promotion), or neither operand is signed.
\<close>

definition sign_safe :: "ity \<Rightarrow> ity \<Rightarrow> bool" where
  "sign_safe A B \<longleftrightarrow> is_signed (common_type A B) \<or> (\<not> is_signed A \<and> \<not> is_signed B)"

text \<open>The built-in operators \<^verbatim>\<open><\<close> and \<^verbatim>\<open>>\<close> on operands of types \<open>A\<close> and \<open>B\<close>.\<close>

definition lt_c :: "ity \<Rightarrow> int \<Rightarrow> ity \<Rightarrow> int \<Rightarrow> bool" where
  "lt_c A x B y = (conv (common_type A B) x < conv (common_type A B) y)"

definition gt_c :: "ity \<Rightarrow> int \<Rightarrow> ity \<Rightarrow> int \<Rightarrow> bool" where
  "gt_c A x B y = (conv (common_type A B) x > conv (common_type A B) y)"

section \<open>Stream output\<close>

text \<open>
  \<^verbatim>\<open>oss << v\<close> writes an integer in decimal, except for the 8-bit types
  (\<^verbatim>\<open>signed char\<close> and \<^verbatim>\<open>unsigned char\<close>), which it writes as one character.
\<close>

definition digit :: "nat \<Rightarrow> char" where
  "digit d = char_of (48 + d)"

fun show_nat :: "nat \<Rightarrow> string" where
  "show_nat n = (if n < 10 then [digit n] else show_nat (n div 10) @ [digit (n mod 10)])"

declare show_nat.simps [simp del]

definition show_int :: "int \<Rightarrow> string" where
  "show_int i = (if i < 0 then CHR ''-'' # show_nat (nat (- i)) else show_nat (nat i))"

definition show_c :: "ity \<Rightarrow> int \<Rightarrow> string" where
  "show_c T v = (if bits T = 8 then [char_of v] else show_int v)"

section \<open>The range validator\<close>

text \<open>\<^verbatim>\<open>std::runtime_error\<close> with its message.\<close>

datatype error = RuntimeError string

text \<open>
  \<^verbatim>\<open>checkMin(V val, T min, name)\<close>: throws when \<^verbatim>\<open>val < min\<close>, and returns nothing
  otherwise.
\<close>

definition checkMin :: "ity \<Rightarrow> int \<Rightarrow> ity \<Rightarrow> int \<Rightarrow> string \<Rightarrow> error + unit" where
  "checkMin V val T mn name =
     (if lt_c V val T mn
      then Inl (RuntimeError (''Invalid settings: '' @ name @ '' must be > '' @ show_c T mn))
      else Inr ())"

text \<open>\<^verbatim>\<open>checkRange(V val, T min, T max, name)\<close>: throws when \<^verbatim>\<open>val < min || val > max\<close>.\<close>

definition checkRange :: "ity \<Rightarrow> int \<Rightarrow> ity \<Rightarrow> int \<Rightarrow> int \<Rightarrow> string \<Rightarrow> error + unit" where
  "checkRange V val T mn mx name =
     (if lt_c V val T mn \<or> gt_c V val T mx
      then Inl (RuntimeError (''Invalid settings: '' @ name @ '' must be in range ['' @
                 show_c T mn @ '', '' @ show_c T mx @ ''].''))
      else Inr ())"

text \<open>
  \<^verbatim>\<open>checkRange(std::vector<V> val, T min, T max, name)\<close>: the loop over the index
  \<open>i\<close>, from \<open>i\<close> on; an exception of the scalar check leaves the loop.
\<close>

function checkRange_from ::
  "ity \<Rightarrow> int list \<Rightarrow> ity \<Rightarrow> int \<Rightarrow> int \<Rightarrow> string \<Rightarrow> nat \<Rightarrow> error + unit" where
  "checkRange_from V val T mn mx name i =
     (if i < length val
      then (case checkRange V (val ! i) T mn mx (name @ ''['' @ show_nat i @ '']'') of
              Inl e \<Rightarrow> Inl e
            | Inr _ \<Rightarrow> checkRange_from V val T mn mx name (Suc i))
      else Inr ())"
  by pat_completeness auto
termination
  by (relation "measure (\<lambda>(V, val, T, mn, mx, name, i). length val - i)") auto

declare checkRange_from.simps [simp del]

definition checkRange_vec ::
  "ity \<Rightarrow> int list \<Rightarrow> ity \<Rightarrow> int \<Rightarrow> int \<Rightarrow> string \<Rightarrow> error + unit" where
  "checkRange_vec V val T mn mx name = checkRange_from V val T mn mx name 0"

section \<open>The parameter store\<close>

text \<open>
  Modelled from the spec: the configuration store (\<^verbatim>\<open>ros::NodeHandle\<close>, an
  external collaborator; only its callers are in \<^verbatim>\<open>utils.hpp\<close>). It exposes
  \<open>hasKey\<close>, \<open>getParam\<close> for scalar integer, boolean and
  sequence-of-integer types, each returning the value and whether it was found,
  and \<open>setParam\<close>. A stored integer is the store's native \<^verbatim>\<open>int\<close>, a 32-bit
  word read as two's complement. A read at a type other than the stored one
  finds nothing.
\<close>

datatype param = PInt "32 word" | PBool bool | PIntList "32 word list" | PString string

type_synonym NodeHandle = "string \<rightharpoonup> param"

definition hasParam :: "NodeHandle \<Rightarrow> string \<Rightarrow> bool" where
  "hasParam node key = (node key \<noteq> None)"

definition setParam :: "NodeHandle \<Rightarrow> string \<Rightarrow> param \<Rightarrow> NodeHandle" where
  "setParam node key v = node(key \<mapsto> v)"

definition getParam_int :: "NodeHandle \<Rightarrow> string \<Rightarrow> int option" where
  "getParam_int node key = (case node key of Some (PInt w) \<Rightarrow> Some (sint w) | _ \<Rightarrow> None)"

definition getParam_bool :: "NodeHandle \<Rightarrow> string \<Rightarrow> bool option" where
  "getParam_bool node key = (case node key of Some (PBool b) \<Rightarrow> Some b | _ \<Rightarrow> None)"

definition getParam_vec :: "NodeHandle \<Rightarrow> string \<Rightarrow> int list option" where
  "getParam_vec node key =
     (case node key of Some (PIntList ws) \<Rightarrow> Some (map sint ws) | _ \<Rightarrow> None)"

section \<open>The typed parameter accessors\<close>

text \<open>
  \<^verbatim>\<open>bool getRosUint(node, key, U &u)\<close>. The result is the exception, or the
  returned flag with the value of \<open>u\<close> after the call; \<open>u\<close> keeps its value
  when the parameter is not found.
\<close>

definition getRosUint :: "ity \<Rightarrow> NodeHandle \<Rightarrow> string \<Rightarrow> int \<Rightarrow> error + bool \<times> int" where
  "getRosUint U node key u =
     (case getParam_int node key of
        None \<Rightarrow> Inr (False, u)
      | Some param \<Rightarrow>
          (case checkRange I32 param U (lowest U) (max_of U) key of
             Inl e \<Rightarrow> Inl e
           | Inr _ \<Rightarrow> Inr (True, conv U param)))"

text \<open>
  \<^verbatim>\<open>void getRosUint(node, key, U &u, V default_val)\<close>: the result is the value of
  \<open>u\<close> after the call. The assignment \<^verbatim>\<open>u = default_val\<close> converts the default to
  \<open>U\<close>.
\<close>

definition getRosUint_default :: "ity \<Rightarrow> NodeHandle \<Rightarrow> string \<Rightarrow> int \<Rightarrow> int \<Rightarrow> error + int" where
  "getRosUint_default U node key u default_val =
     (case getRosUint U node key u of
        Inl e \<Rightarrow> Inl e
      | Inr (found, u') \<Rightarrow> Inr (if \<not> found then conv U default_val else u'))"

text \<open>
  \<^verbatim>\<open>bool getRosUint(node, key, std::vector<U> &u)\<close>: \<^verbatim>\<open>u.insert(u.begin(), ...)\<close>
  puts the elements read, each converted to \<open>U\<close>, in front of what \<open>u\<close> holds.
\<close>

definition getRosUint_vec ::
  "ity \<Rightarrow> NodeHandle \<Rightarrow> string \<Rightarrow> int list \<Rightarrow> error + bool \<times> int list" where
  "getRosUint_vec U node key u =
     (case getParam_vec node key of
        None \<Rightarrow> Inr (False, u)
      | Some param \<Rightarrow>
          (case checkRange_vec I32 param U (lowest U) (max_of U) key of
             Inl e \<Rightarrow> Inl e
           | Inr _ \<Rightarrow> Inr (True, map (conv U) param @ u)))"

text \<open>\<^verbatim>\<open>getRosInt\<close>, in the same three forms.\<close>

definition getRosInt :: "ity \<Rightarrow> NodeHandle \<Rightarrow> string \<Rightarrow> int \<Rightarrow> error + bool \<times> int" where
  "getRosInt I node key u =
     (case getParam_int node key of
        None \<Rightarrow> Inr (False, u)
      | Some param \<Rightarrow>
          (case checkRange I32 param I (lowest I) (max_of I) key of
             Inl e \<Rightarrow> Inl e
           | Inr _ \<Rightarrow> Inr (True, conv I param)))"

definition getRosInt_default :: "ity \<Rightarrow> NodeHandle \<Rightarrow> string \<Rightarrow> int \<Rightarrow> int \<Rightarrow> error + int" where
  "getRosInt_default U node key u default_val =
     (case getRosInt U node key u of
        Inl e \<Rightarrow> Inl e
      | Inr (found, u') \<Rightarrow> Inr (if \<not> found then conv U default_val else u'))"

definition getRosInt_vec ::
  "ity \<Rightarrow> NodeHandle \<Rightarrow> string \<Rightarrow> int list \<Rightarrow> error + bool \<times> int list" where
  "getRosInt_vec I node key i =
     (case getParam_vec node key of
        None \<Rightarrow> Inr (False, i)
      | Some param \<Rightarrow>
          (case checkRange_vec I32 param I (lowest I) (max_of I) key of
             Inl e \<Rightarrow> Inl e
           | Inr _ \<Rightarrow> Inr (True, map (conv I) param @ i)))"

section \<open>The boolean accessors\<close>

definition wrong_type :: "string \<Rightarrow> error" where
  "wrong_type name =
     RuntimeError (''Required parameter '' @ [CHR 0x27] @ name @ [CHR 0x27] @
                   '' has the wrong type (expected bool)'')"

text \<open>
  How a call of a function that returns a value of type \<open>'a\<close> ends: with a
  \<^verbatim>\<open>return\<close> statement, with an exception, or by reaching the closing brace of
  the function body without a \<^verbatim>\<open>return\<close> statement. The last is undefined
  behaviour: nothing is known of what the caller receives, or of whether the
  call ends at all.
\<close>

datatype 'a outcome = Returned 'a | Thrown error | Undefined_behaviour

text \<open>
  \<^verbatim>\<open>bool declareRosBoolean(node, name, default_value)\<close>. The first component of
  the result is the store after the calls of \<^verbatim>\<open>hasParam\<close>, \<^verbatim>\<open>setParam\<close> and
  \<^verbatim>\<open>getParam\<close>, the second is how the call ends. The body has no \<^verbatim>\<open>return\<close>
  statement: when \<^verbatim>\<open>getParam\<close> finds the boolean, control reaches the closing
  brace.
\<close>

definition declareRosBoolean ::
  "NodeHandle \<Rightarrow> string \<Rightarrow> bool \<Rightarrow> NodeHandle \<times> bool outcome" where
  "declareRosBoolean node name default_value =
     (let node' = (if \<not> hasParam node name then setParam node name (PBool default_value)
                   else node)
      in case getParam_bool node' name of
           None \<Rightarrow> (node', Thrown (wrong_type name))
         | Some ret \<Rightarrow> (node', Undefined_behaviour))"

text \<open>\<^verbatim>\<open>bool getRosBoolean(node, name)\<close>.\<close>

definition getRosBoolean :: "NodeHandle \<Rightarrow> string \<Rightarrow> error + bool" where
  "getRosBoolean node name =
     (case getParam_bool node name of
        None \<Rightarrow> Inl (wrong_type name)
      | Some ret \<Rightarrow> Inr ret)"

section \<open>Calendar fields to epoch seconds\<close>

record tm =
  tm_sec :: int
  tm_min :: int
  tm_hour :: int
  tm_mday :: int
  tm_mon :: int
  tm_year :: int
  tm_wday :: int
  tm_yday :: int
  tm_isdst :: int

text \<open>
  The message type is the template parameter of \<^verbatim>\<open>toUtcSeconds\<close>; its six
  calendar fields are read.
\<close>

record NavPVT =
  year :: int
  month :: int
  day :: int
  hour :: int
  min_f :: int
  sec :: int

text \<open>The ranges the spec gives for the calendar fields of a date.\<close>

definition calendar_fields :: "NavPVT \<Rightarrow> bool" where
  "calendar_fields msg \<longleftrightarrow>
     1 \<le> month msg \<and> month msg \<le> 12 \<and> 1 \<le> day msg \<and> day msg \<le> 31 \<and>
     0 \<le> hour msg \<and> hour msg \<le> 23 \<and> 0 \<le> min_f msg \<and> min_f msg \<le> 59 \<and>
     0 \<le> sec msg \<and> sec msg \<le> 59"

text \<open>
  Modelled from the spec: \<^verbatim>\<open>mkgmtime\<close> (declared in \<^verbatim>\<open>ublox_gps/mkgmtime.h\<close>,
  which is not among the sources). The spec asks for the proleptic Gregorian
  calendar, with a leap year when the year is divisible by 4 but not by 100, or
  divisible by 400, and for a day count that does not depend on the time zone.
  Fields outside their calendar ranges are not specified.
\<close>

definition leap_year :: "int \<Rightarrow> bool" where
  "leap_year y \<longleftrightarrow> (y mod 4 = 0 \<and> y mod 100 \<noteq> 0) \<or> y mod 400 = 0"

definition month_lengths :: "int \<Rightarrow> int list" where
  "month_lengths y =
     [31, if leap_year y then 29 else 28, 31, 30, 31, 30, 31, 31, 30, 31, 30, 31]"

definition days_before_month :: "int \<Rightarrow> int \<Rightarrow> int" where
  "days_before_month y m = sum_list (take (nat m) (month_lengths y))"

definition leap_years_upto :: "int \<Rightarrow> int" where
  "leap_years_upto y = y div 4 - y div 100 + y div 400"

definition days_before_year :: "int \<Rightarrow> int" where
  "days_before_year y = 365 * (y - 1970) + (leap_years_upto (y - 1) - leap_years_upto 1969)"

definition mkgmtime :: "tm \<Rightarrow> int" where
  "mkgmtime t =
     (let y = tm_year t + 1900;
          days = days_before_year y + days_before_month y (tm_mon t) + (tm_mday t - 1)
      in ((days * 24 + tm_hour t) * 60 + tm_min t) * 60 + tm_sec t)"

definition toUtcSeconds :: "NavPVT \<Rightarrow> int" where
  "toUtcSeconds msg =
     mkgmtime \<lparr> tm_sec = sec msg, tm_min = min_f msg, tm_hour = hour msg, tm_mday = day msg,
                tm_mon = month msg - 1, tm_year = year msg - 1900,
                tm_wday = 0, tm_yday = 0, tm_isdst = 0 \<rparr>"

text \<open>
  The conversion in the words of the spec, to compare \<^verbatim>\<open>toUtcSeconds\<close> with:
  the days from 1970-01-01 to the date are counted year by year and month by
  month, a leap year having 366 days and its February 29, and the epoch
  seconds are the seconds of those days and of the time of day.
\<close>

definition year_length :: "int \<Rightarrow> int" where
  "year_length y = (if leap_year y then 366 else 365)"

definition month_length :: "int \<Rightarrow> int \<Rightarrow> int" where
  "month_length y m =
     (if m = 2 then (if leap_year y then 29 else 28)
      else if m = 4 \<or> m = 6 \<or> m = 9 \<or> m = 11 then 30
      else 31)"

definition days_since_epoch :: "int \<Rightarrow> int \<Rightarrow> int \<Rightarrow> int" where
  "days_since_epoch y m d =
     (if 1970 \<le> y then (\<Sum>k\<leftarrow>[1970..y - 1]. year_length k)
      else - (\<Sum>k\<leftarrow>[y..1969]. year_length k)) +
     (\<Sum>k\<leftarrow>[1..m - 1]. month_length y k) + (d - 1)"

definition gregorian_utc_seconds :: "int \<Rightarrow> int \<Rightarrow> int \<Rightarrow> int \<Rightarrow> int \<Rightarrow> int \<Rightarrow> int" where
  "gregorian_utc_seconds y m d h mi s = 86400 * days_since_epoch y m d + 3600 * h + 60 * mi + s"

section \<open>Conversions that keep the value\<close>

lemma conv_id: "in_range T v \<Longrightarrow> conv T v = v"
  by (cases T) (simp_all add: in_range_def lowest_def max_of_def conv_def)

lemma in_range_sint: "in_range I32 (sint (w :: 32 word))"
  using sint_ge [of w] sint_lt [of w] by (simp add: in_range_def lowest_def max_of_def)

lemma common_type_commute: "common_type A B = common_type B A"
  by (cases A; cases B) (simp_all add: common_type_def promote_def)

lemma sign_safe_commute: "sign_safe A B = sign_safe B A"
  by (auto simp: sign_safe_def common_type_commute)

lemma in_range_common: "sign_safe A B \<Longrightarrow> in_range A x \<Longrightarrow> in_range (common_type A B) x"
  by (cases A; cases B)
     (simp_all add: sign_safe_def common_type_def promote_def in_range_def lowest_def max_of_def)

lemma conv_common:
  assumes "sign_safe A B" "in_range A x" "in_range B y"
  shows "conv (common_type A B) x = x" and "conv (common_type A B) y = y"
proof -
  show "conv (common_type A B) x = x"
    using assms(1,2) by (simp add: conv_id in_range_common)
  have "in_range (common_type B A) y"
    using assms(1,3) by (simp add: in_range_common sign_safe_commute)
  then show "conv (common_type A B) y = y"
    by (simp add: conv_id common_type_commute)
qed

lemma lt_c_exact: "sign_safe A B \<Longrightarrow> in_range A x \<Longrightarrow> in_range B y \<Longrightarrow> lt_c A x B y \<longleftrightarrow> x < y"
  by (simp add: lt_c_def conv_common)

lemma gt_c_exact: "sign_safe A B \<Longrightarrow> in_range A x \<Longrightarrow> in_range B y \<Longrightarrow> gt_c A x B y \<longleftrightarrow> y < x"
  by (simp add: gt_c_def conv_common)

lemma in_range_lowest: "in_range T (lowest T)"
  by (cases T) (simp_all add: in_range_def lowest_def max_of_def)

lemma in_range_max_of: "in_range T (max_of T)"
  by (cases T) (simp_all add: in_range_def lowest_def max_of_def)

text \<open>
  A value of \<^verbatim>\<open>int\<close> that the target type represents passes the check against
  the target's limits, whatever the target type is.
\<close>

lemma not_lt_c_lowest: "in_range T v \<Longrightarrow> \<not> lt_c I32 v T (lowest T)"
  by (cases T)
     (simp_all add: lt_c_def common_type_def promote_def conv_def in_range_def lowest_def
        max_of_def)

lemma not_gt_c_max_of: "in_range T v \<Longrightarrow> \<not> gt_c I32 v T (max_of T)"
  by (cases T)
     (simp_all add: gt_c_def common_type_def promote_def conv_def in_range_def lowest_def
        max_of_def)

lemma checkRange_in_range:
  "in_range T v \<Longrightarrow> checkRange I32 v T (lowest T) (max_of T) name = Inr ()"
  by (simp add: checkRange_def not_lt_c_lowest not_gt_c_max_of)

section \<open>Decimal digits\<close>

lemma digit_simps:
  "digit 0 = CHR ''0''" "digit 1 = CHR ''1''" "digit 2 = CHR ''2''" "digit 3 = CHR ''3''"
  "digit 4 = CHR ''4''" "digit 5 = CHR ''5''" "digit 6 = CHR ''6''" "digit 7 = CHR ''7''"
  "digit 8 = CHR ''8''" "digit 9 = CHR ''9''" "digit (Suc 0) = CHR ''1''"
  by (simp_all add: digit_def char_of_def bit_Suc bit_0)

section \<open>The range validator: scalar checks\<close>

text \<open>
  Where the common type of the two operands represents both of them, the
  comparisons of \<^verbatim>\<open>checkMin\<close> and \<^verbatim>\<open>checkRange\<close> are the mathematical ones.
\<close>

theorem checkMin_sign_safe:
  assumes "sign_safe V T" "in_range V val" "in_range T mn"
  shows "checkMin V val T mn name =
           (if val < mn
            then Inl (RuntimeError (''Invalid settings: '' @ name @ '' must be > '' @ show_c T mn))
            else Inr ())"
  using assms by (simp add: checkMin_def lt_c_exact)

theorem checkMin_sign_safe_witness:
  "checkMin U16 0 I32 1 ''nav_rate'' =
     Inl (RuntimeError ''Invalid settings: nav_rate must be > 1'') \<and>
   checkMin U16 1 I32 1 ''nav_rate'' = Inr ()"
proof -
  have str: "show_c I32 1 = ''1''"
    by (simp add: show_c_def show_int_def show_nat.simps digit_simps)
  have side: "sign_safe U16 I32" "in_range U16 0" "in_range U16 1" "in_range I32 1"
    by (simp_all add: sign_safe_def common_type_def promote_def in_range_def lowest_def
        max_of_def)
  show ?thesis
    using checkMin_sign_safe [OF side(1,2,4), of "''nav_rate''"]
      checkMin_sign_safe [OF side(1,3,4), of "''nav_rate''"]
    by (simp add: str)
qed

theorem checkRange_sign_safe:
  assumes "sign_safe V T" "in_range V val" "in_range T mn" "in_range T mx"
  shows "(\<exists>e. checkRange V val T mn mx name = Inl e) \<longleftrightarrow> val < mn \<or> mx < val"
  using assms by (simp add: checkRange_def lt_c_exact gt_c_exact)

theorem checkRange_sign_safe_witness:
  "(\<exists>e. checkRange I64 4294967296 I8 (- 128) 127 ''x'' = Inl e) \<and>
   \<not> (\<exists>e. checkRange I64 0 I8 (- 128) 127 ''x'' = Inl e)"
proof -
  have side: "sign_safe I64 I8" "in_range I64 4294967296" "in_range I64 0"
    "in_range I8 (- 128)" "in_range I8 127"
    by (simp_all add: sign_safe_def common_type_def promote_def in_range_def lowest_def
        max_of_def)
  show ?thesis
    using checkRange_sign_safe [OF side(1,2,4,5), of "''x''"]
      checkRange_sign_safe [OF side(1,3,4,5), of "''x''"]
    by simp
qed

text \<open>
  C9. \<^verbatim>\<open>checkMin\<close> is to fail exactly when the value is below the minimum.
  With a value of type \<^verbatim>\<open>int\<close> and a minimum of type \<^verbatim>\<open>unsigned int\<close> the
  comparison converts the value to \<^verbatim>\<open>unsigned int\<close>: \<open>- 1\<close> is below the
  minimum \<open>0\<close>, and the check passes.
\<close>

theorem checkMin_int_below_unsigned_min_passes:
  "in_range I32 (- 1) \<and> in_range U32 0 \<and> (- 1 :: int) < 0 \<and>
   checkMin I32 (- 1) U32 0 ''rate'' = Inr ()"
  by (simp add: checkMin_def lt_c_def common_type_def promote_def conv_def in_range_def
      lowest_def max_of_def)

text \<open>
  C2. The scalar \<^verbatim>\<open>checkRange\<close> is to fail exactly when the value is outside
  the bound under the comparison of the mathematical integers. With a value of
  type \<^verbatim>\<open>int\<close> and bounds of type \<^verbatim>\<open>unsigned int\<close> the value is converted before
  it is compared: \<open>- 1\<close> is below the bound \<open>[0, 4294967295]\<close>, and the check
  passes.
\<close>

theorem checkRange_int_below_unsigned_bound_passes:
  "in_range I32 (- 1) \<and> in_range U32 0 \<and> in_range U32 4294967295 \<and> (- 1 :: int) < 0 \<and>
   checkRange I32 (- 1) U32 0 4294967295 ''baudrate'' = Inr ()"
  by (simp add: checkRange_def lt_c_def gt_c_def common_type_def promote_def conv_def
      in_range_def lowest_def max_of_def)

section \<open>The range validator: sequences\<close>

lemma checkRange_from_pass:
  assumes "\<forall>j. k \<le> j \<and> j < length s \<longrightarrow> \<not> lt_c V (s ! j) T lo \<and> \<not> gt_c V (s ! j) T hi"
  shows "checkRange_from V s T lo hi name k = Inr ()"
  using assms
proof (induction "length s - k" arbitrary: k)
  case 0
  then show ?case by (simp add: checkRange_from.simps [of V s T lo hi name k])
next
  case (Suc n)
  then have k: "k < length s" and n: "n = length s - Suc k" by simp_all
  have here: "checkRange V (s ! k) T lo hi (name @ ''['' @ show_nat k @ '']'') = Inr ()"
    using Suc.prems k by (simp add: checkRange_def)
  have rest: "checkRange_from V s T lo hi name (Suc k) = Inr ()"
    using Suc.hyps(1) [OF n] Suc.prems by simp
  show ?case
    using k here rest by (simp add: checkRange_from.simps [of V s T lo hi name k])
qed

lemma checkRange_from_fail:
  assumes "i < length s" and "k \<le> i"
    and "\<forall>j. k \<le> j \<and> j < i \<longrightarrow> \<not> lt_c V (s ! j) T lo \<and> \<not> gt_c V (s ! j) T hi"
    and "lt_c V (s ! i) T lo \<or> gt_c V (s ! i) T hi"
  shows "checkRange_from V s T lo hi name k =
           Inl (RuntimeError (''Invalid settings: '' @ (name @ ''['' @ show_nat i @ '']'') @
                  '' must be in range ['' @ show_c T lo @ '', '' @ show_c T hi @ ''].''))"
  using assms(2,3)
proof (induction "i - k" arbitrary: k)
  case 0
  then have "k = i" by simp
  then show ?case
    using assms(1,4) by (simp add: checkRange_from.simps [of V s T lo hi name i] checkRange_def)
next
  case (Suc n)
  then have k: "k < i" and n: "n = i - Suc k" by simp_all
  have here: "checkRange V (s ! k) T lo hi (name @ ''['' @ show_nat k @ '']'') = Inr ()"
    using Suc.prems k by (simp add: checkRange_def)
  have rest: "checkRange_from V s T lo hi name (Suc k) =
           Inl (RuntimeError (''Invalid settings: '' @ (name @ ''['' @ show_nat i @ '']'') @
                  '' must be in range ['' @ show_c T lo @ '', '' @ show_c T hi @ ''].''))"
    using Suc.hyps(1) [OF n] Suc.prems k by simp
  show ?case
    using k assms(1) here rest by (simp add: checkRange_from.simps [of V s T lo hi name k])
qed

text \<open>
  The sequence \<^verbatim>\<open>checkRange\<close> passes when the comparisons of the scalar check
  reject no element. When \<open>i\<close> is the first index whose element they reject,
  it fails with the error of the scalar check for the name \<open>name[i]\<close>, and
  the result is the same whatever follows \<open>s ! i\<close>.
\<close>

lemma checkRange_vec_first_rejected:
  "((\<forall>j<length s. \<not> lt_c V (s ! j) T lo \<and> \<not> gt_c V (s ! j) T hi) \<longrightarrow>
      checkRange_vec V s T lo hi name = Inr ()) \<and>
   (i < length s \<and> (\<forall>j<i. \<not> lt_c V (s ! j) T lo \<and> \<not> gt_c V (s ! j) T hi) \<and>
    (lt_c V (s ! i) T lo \<or> gt_c V (s ! i) T hi) \<longrightarrow>
      checkRange_vec V s T lo hi name =
        Inl (RuntimeError (''Invalid settings: '' @ name @ ''['' @ show_nat i @ '']'' @
               '' must be in range ['' @ show_c T lo @ '', '' @ show_c T hi @ ''].'')) \<and>
      checkRange_vec V s T lo hi name =
        checkRange V (s ! i) T lo hi (name @ ''['' @ show_nat i @ '']'') \<and>
      (\<forall>rest. checkRange_vec V (take (Suc i) s @ rest) T lo hi name =
               checkRange_vec V s T lo hi name))"
proof (intro conjI impI allI)
  assume "\<forall>j<length s. \<not> lt_c V (s ! j) T lo \<and> \<not> gt_c V (s ! j) T hi"
  then show "checkRange_vec V s T lo hi name = Inr ()"
    by (simp add: checkRange_vec_def checkRange_from_pass)
next
  assume a: "i < length s \<and> (\<forall>j<i. \<not> lt_c V (s ! j) T lo \<and> \<not> gt_c V (s ! j) T hi) \<and>
    (lt_c V (s ! i) T lo \<or> gt_c V (s ! i) T hi)"
  then show whole: "checkRange_vec V s T lo hi name =
        Inl (RuntimeError (''Invalid settings: '' @ name @ ''['' @ show_nat i @ '']'' @
               '' must be in range ['' @ show_c T lo @ '', '' @ show_c T hi @ ''].''))"
    using checkRange_from_fail [of i s 0 V T lo hi name]
    by (simp add: checkRange_vec_def)
  from a show "checkRange_vec V s T lo hi name =
        checkRange V (s ! i) T lo hi (name @ ''['' @ show_nat i @ '']'')"
    using whole by (simp add: checkRange_def)
  fix rest
  let ?s = "take (Suc i) s @ rest"
  from a have len: "i < length ?s" by simp
  have same: "?s ! j = s ! j" if "j \<le> i" for j
    using that a by (simp add: nth_append)
  have "checkRange_vec V ?s T lo hi name =
        Inl (RuntimeError (''Invalid settings: '' @ name @ ''['' @ show_nat i @ '']'' @
               '' must be in range ['' @ show_c T lo @ '', '' @ show_c T hi @ ''].''))"
    using checkRange_from_fail [of i ?s 0 V T lo hi name] len a same
    by (simp add: checkRange_vec_def del: append_take_drop_id)
  then show "checkRange_vec V ?s T lo hi name = checkRange_vec V s T lo hi name"
    using whole by simp
qed

text \<open>
  Where the common type of the element type and the bound type represents
  both, the elements and the bounds being values of their types, the sequence
  check does what is asked of it: it passes when every element is inside
  \<open>[lo, hi]\<close>, and at the first index \<open>i\<close> with \<open>s ! i < lo\<close> or
  \<open>hi < s ! i\<close> it fails, naming \<open>name[i]\<close>, whatever follows that element.
\<close>

theorem checkRange_vec_sign_safe:
  "sign_safe V T \<and> (\<forall>x\<in>set s. in_range V x) \<and> in_range T lo \<and> in_range T hi \<longrightarrow>
   ((\<forall>j<length s. lo \<le> s ! j \<and> s ! j \<le> hi) \<longrightarrow>
      checkRange_vec V s T lo hi name = Inr ()) \<and>
   (i < length s \<and> (\<forall>j<i. lo \<le> s ! j \<and> s ! j \<le> hi) \<and> (s ! i < lo \<or> hi < s ! i) \<longrightarrow>
      checkRange_vec V s T lo hi name =
        Inl (RuntimeError (''Invalid settings: '' @ name @ ''['' @ show_nat i @ '']'' @
               '' must be in range ['' @ show_c T lo @ '', '' @ show_c T hi @ ''].'')) \<and>
      (\<forall>rest. checkRange_vec V (take (Suc i) s @ rest) T lo hi name =
               checkRange_vec V s T lo hi name))"
proof (intro impI)
  assume side: "sign_safe V T \<and> (\<forall>x\<in>set s. in_range V x) \<and> in_range T lo \<and> in_range T hi"
  have lt: "lt_c V (s ! j) T lo \<longleftrightarrow> s ! j < lo" if "j < length s" for j
    using side that by (simp add: lt_c_exact)
  have gt: "gt_c V (s ! j) T hi \<longleftrightarrow> hi < s ! j" if "j < length s" for j
    using side that by (simp add: gt_c_exact)
  show "((\<forall>j<length s. lo \<le> s ! j \<and> s ! j \<le> hi) \<longrightarrow>
      checkRange_vec V s T lo hi name = Inr ()) \<and>
   (i < length s \<and> (\<forall>j<i. lo \<le> s ! j \<and> s ! j \<le> hi) \<and> (s ! i < lo \<or> hi < s ! i) \<longrightarrow>
      checkRange_vec V s T lo hi name =
        Inl (RuntimeError (''Invalid settings: '' @ name @ ''['' @ show_nat i @ '']'' @
               '' must be in range ['' @ show_c T lo @ '', '' @ show_c T hi @ ''].'')) \<and>
      (\<forall>rest. checkRange_vec V (take (Suc i) s @ rest) T lo hi name =
               checkRange_vec V s T lo hi name))"
  proof (intro conjI impI)
    assume "\<forall>j<length s. lo \<le> s ! j \<and> s ! j \<le> hi"
    then have "\<forall>j<length s. \<not> lt_c V (s ! j) T lo \<and> \<not> gt_c V (s ! j) T hi"
      by (simp add: lt gt not_less)
    then show "checkRange_vec V s T lo hi name = Inr ()"
      using checkRange_vec_first_rejected [of s V T lo hi name i] by blast
  next
    assume a: "i < length s \<and> (\<forall>j<i. lo \<le> s ! j \<and> s ! j \<le> hi) \<and> (s ! i < lo \<or> hi < s ! i)"
    then have "i < length s \<and> (\<forall>j<i. \<not> lt_c V (s ! j) T lo \<and> \<not> gt_c V (s ! j) T hi) \<and>
        (lt_c V (s ! i) T lo \<or> gt_c V (s ! i) T hi)"
      by (simp add: lt gt not_less)
    then have r: "checkRange_vec V s T lo hi name =
        Inl (RuntimeError (''Invalid settings: '' @ name @ ''['' @ show_nat i @ '']'' @
               '' must be in range ['' @ show_c T lo @ '', '' @ show_c T hi @ ''].'')) \<and>
      checkRange_vec V s T lo hi name =
        checkRange V (s ! i) T lo hi (name @ ''['' @ show_nat i @ '']'') \<and>
      (\<forall>rest. checkRange_vec V (take (Suc i) s @ rest) T lo hi name =
               checkRange_vec V s T lo hi name)"
      using checkRange_vec_first_rejected [of s V T lo hi name i] by blast
    from r show "checkRange_vec V s T lo hi name =
        Inl (RuntimeError (''Invalid settings: '' @ name @ ''['' @ show_nat i @ '']'' @
               '' must be in range ['' @ show_c T lo @ '', '' @ show_c T hi @ ''].''))"
      by blast
    from r show "\<forall>rest. checkRange_vec V (take (Suc i) s @ rest) T lo hi name =
               checkRange_vec V s T lo hi name"
      by blast
  qed
qed

theorem checkRange_vec_sign_safe_witness:
  "checkRange_vec I32 [1, 2] U16 0 65535 ''x'' = Inr () \<and>
   checkRange_vec I32 [1, 2, 70000, 4] U16 0 65535 ''x'' =
     Inl (RuntimeError ''Invalid settings: x[2] must be in range [0, 65535].'') \<and>
   checkRange_vec I32 [1, 2, 70000, - 5, 6] U16 0 65535 ''x'' =
     checkRange_vec I32 [1, 2, 70000, 4] U16 0 65535 ''x''"
proof -
  have side: "sign_safe I32 U16" "in_range U16 0" "in_range U16 65535"
    "in_range I32 1" "in_range I32 2" "in_range I32 70000" "in_range I32 4"
    by (simp_all add: sign_safe_def common_type_def promote_def in_range_def lowest_def
        max_of_def)
  have two: "j < 2 \<longleftrightarrow> j = 0 \<or> j = Suc 0" for j :: nat by auto
  have str: "show_nat 2 = ''2''" "show_c U16 0 = ''0''" "show_c U16 65535 = ''65535''"
    by (simp_all add: show_c_def show_int_def show_nat.simps digit_simps)
  have pass: "checkRange_vec I32 [1, 2] U16 0 65535 ''x'' = Inr ()"
    using checkRange_vec_sign_safe [of I32 U16 "[1, 2]" 0 65535 "''x''" 0]
    by (auto simp: side less_Suc_eq)
  have fail: "checkRange_vec I32 [1, 2, 70000, 4] U16 0 65535 ''x'' =
     Inl (RuntimeError ''Invalid settings: x[2] must be in range [0, 65535].'') \<and>
     checkRange_vec I32 [1, 2, 70000, - 5, 6] U16 0 65535 ''x'' =
     checkRange_vec I32 [1, 2, 70000, 4] U16 0 65535 ''x''"
    using checkRange_vec_sign_safe [of I32 U16 "[1, 2, 70000, 4]" 0 65535 "''x''" 2]
    by (auto simp: side two less_Suc_eq str)
  show ?thesis using pass fail by simp
qed

text \<open>
  C6. The sequence \<^verbatim>\<open>checkRange\<close> is to fail at the first index whose element
  is out of bound. With elements of type \<^verbatim>\<open>int\<close> and bounds of type
  \<^verbatim>\<open>unsigned int\<close> each element is converted before it is compared: in
  \<open>[- 1, 3]\<close> against \<open>[5, 4294967295]\<close> the first element out of bound is at
  index 0, and the check passes it and fails at index 1; \<open>[- 1]\<close> against
  \<open>[0, 4294967295]\<close> passes altogether.
\<close>

theorem checkRange_vec_skips_negative_element:
  "(- 1 :: int) < 5 \<and>
   checkRange_vec I32 [- 1, 3] U32 5 4294967295 ''x'' =
     Inl (RuntimeError ''Invalid settings: x[1] must be in range [5, 4294967295].'') \<and>
   (- 1 :: int) < 0 \<and>
   checkRange_vec I32 [- 1] U32 0 4294967295 ''x'' = Inr ()"
  by (simp add: checkRange_vec_def checkRange_from.simps checkRange_def lt_c_def gt_c_def
      common_type_def promote_def conv_def show_c_def show_int_def show_nat.simps digit_simps)

section \<open>The typed parameter accessors: scalars\<close>

lemma sign_safe_int: "sign_safe I32 T \<longleftrightarrow> T \<noteq> U32 \<and> T \<noteq> U64"
  by (cases T) (simp_all add: sign_safe_def common_type_def promote_def)

lemma checkRange_limits:
  assumes "sign_safe I32 T"
  shows "checkRange I32 (sint (w :: 32 word)) T (lowest T) (max_of T) key =
           (if in_range T (sint w) then Inr ()
            else Inl (RuntimeError (''Invalid settings: '' @ key @ '' must be in range ['' @
                   show_c T (lowest T) @ '', '' @ show_c T (max_of T) @ ''].'')))"
proof -
  have lt: "lt_c I32 (sint w) T (lowest T) \<longleftrightarrow> sint w < lowest T"
    using assms by (simp add: lt_c_exact in_range_sint in_range_lowest)
  have gt: "gt_c I32 (sint w) T (max_of T) \<longleftrightarrow> max_of T < sint w"
    using assms by (simp add: gt_c_exact in_range_sint in_range_max_of)
  show ?thesis
    by (auto simp: checkRange_def lt gt in_range_def)
qed

text \<open>
  For every target type but \<^verbatim>\<open>uint32_t\<close> and \<^verbatim>\<open>uint64_t\<close> the two scalar
  accessors do what their documentation says: no parameter, no failure; a value
  outside the target's range, the range error; a value inside, that value.
\<close>

theorem getRos_scalar_sign_safe:
  "(getParam_int node key = None \<longrightarrow>
      getRosUint T node key u = Inr (False, u) \<and> getRosInt T node key u = Inr (False, u)) \<and>
   (sign_safe I32 T \<and> node key = Some (PInt w) \<and> \<not> in_range T (sint w) \<longrightarrow>
      getRosUint T node key u =
        Inl (RuntimeError (''Invalid settings: '' @ key @ '' must be in range ['' @
               show_c T (lowest T) @ '', '' @ show_c T (max_of T) @ ''].'')) \<and>
      getRosInt T node key u = getRosUint T node key u) \<and>
   (node key = Some (PInt w) \<and> in_range T (sint w) \<longrightarrow>
      getRosUint T node key u = Inr (True, sint w) \<and>
      getRosInt T node key u = Inr (True, sint w))"
  by (simp add: getRosUint_def getRosInt_def getParam_int_def checkRange_limits
      checkRange_in_range conv_id)

theorem getRos_scalar_sign_safe_witness:
  "getRosInt I8 Map.empty ''k'' 7 = Inr (False, 7) \<and>
   getRosUint I8 [''k'' \<mapsto> PInt 200] ''k'' 7 =
     Inl (RuntimeError (''Invalid settings: k must be in range ['' @
            [char_of (128 :: nat)] @ '', '' @ [char_of (127 :: nat)] @ ''].'')) \<and>
   getRosInt I8 [''k'' \<mapsto> PInt 200] ''k'' 7 = getRosUint I8 [''k'' \<mapsto> PInt 200] ''k'' 7 \<and>
   getRosInt I8 [''k'' \<mapsto> PInt 100] ''k'' 7 = Inr (True, 100)"
proof -
  have c: "char_of (- 128 :: int) = char_of (128 :: nat)" "char_of (127 :: int) = char_of (127 :: nat)"
    by (simp_all add: char_of_def bit_Suc bit_0)
  have absent: "getRosInt I8 Map.empty ''k'' 7 = Inr (False, 7)"
    using getRos_scalar_sign_safe [of Map.empty "''k''" I8 7 0, THEN conjunct1]
    by (simp add: getParam_int_def)
  have outside: "getRosUint I8 [''k'' \<mapsto> PInt 200] ''k'' 7 =
     Inl (RuntimeError (''Invalid settings: k must be in range ['' @
            [char_of (128 :: nat)] @ '', '' @ [char_of (127 :: nat)] @ ''].'')) \<and>
     getRosInt I8 [''k'' \<mapsto> PInt 200] ''k'' 7 = getRosUint I8 [''k'' \<mapsto> PInt 200] ''k'' 7"
    using getRos_scalar_sign_safe [of "[''k'' \<mapsto> PInt 200]" "''k''" I8 7 200,
        THEN conjunct2, THEN conjunct1]
    by (simp add: sign_safe_int in_range_def lowest_def max_of_def show_c_def c)
  have inside: "getRosInt I8 [''k'' \<mapsto> PInt 100] ''k'' 7 = Inr (True, 100)"
    using getRos_scalar_sign_safe [of "[''k'' \<mapsto> PInt 100]" "''k''" I8 7 100,
        THEN conjunct2, THEN conjunct2]
    by (simp add: in_range_def lowest_def max_of_def)
  show ?thesis using absent outside inside by simp
qed

text \<open>
  C1. The scalar accessor is to fail when the stored integer is outside the
  range of the target type. For the target \<^verbatim>\<open>uint32_t\<close> the stored \<open>- 1\<close> is
  outside the range and the range check converts it to \<^verbatim>\<open>unsigned int\<close> before
  comparing: the accessor reports the parameter as found and stores
  \<open>4294967295\<close>.
\<close>

theorem getRosUint_uint32_negative_found:
  "\<not> in_range U32 (sint (- 1 :: 32 word)) \<and>
   getRosUint U32 [''baudrate'' \<mapsto> PInt (- 1)] ''baudrate'' 0 = Inr (True, 4294967295)"
  by (simp add: getRosUint_def getParam_int_def checkRange_def lt_c_def gt_c_def
      common_type_def promote_def conv_def in_range_def lowest_def max_of_def)

text \<open>
  C7. The form with a default leaves no failure and no validation on the path
  of the absent key, but it assigns the default to a variable of the target
  type: what it returns is the default converted to that type, the default
  itself when the target type represents it. On a stored integer it returns
  what the form without default finds, or fails as that form does.
\<close>

theorem getRos_default_delegates:
  "(node key = None \<longrightarrow>
      getRosUint_default T node key u d = Inr (conv T d) \<and>
      getRosInt_default T node key u d = Inr (conv T d)) \<and>
   (in_range T d \<longrightarrow> conv T d = d) \<and>
   (node key = Some (PInt w) \<longrightarrow>
      getRosUint_default T node key u d =
        (case getRosUint T node key u of Inl e \<Rightarrow> Inl e | Inr (found, v) \<Rightarrow> Inr v) \<and>
      getRosInt_default T node key u d =
        (case getRosInt T node key u of Inl e \<Rightarrow> Inl e | Inr (found, v) \<Rightarrow> Inr v) \<and>
      getRosUint T node key u \<noteq> Inr (False, u) \<and> getRosInt T node key u \<noteq> Inr (False, u))"
  by (simp add: getRosUint_default_def getRosInt_default_def getRosUint_def getRosInt_def
      getParam_int_def conv_id split: sum.split)

theorem getRos_default_delegates_witness:
  "getRosUint_default U16 Map.empty ''missing'' 0 5 = Inr 5 \<and>
   getRosInt_default I8 [''k'' \<mapsto> PInt 100] ''k'' 0 5 = Inr 100"
proof -
  have absent: "getRosUint_default U16 Map.empty ''missing'' 0 5 = Inr (conv U16 5)"
    using getRos_default_delegates [of Map.empty "''missing''" U16 0 5, THEN conjunct1]
    by simp
  have same: "conv U16 5 = 5"
    using getRos_default_delegates [of Map.empty "''missing''" U16 0 5, THEN conjunct2,
        THEN conjunct1]
    by (simp add: in_range_def lowest_def max_of_def)
  have present: "getRosInt_default I8 [''k'' \<mapsto> PInt 100] ''k'' 0 5 =
      (case getRosInt I8 [''k'' \<mapsto> PInt 100] ''k'' 0 of
         Inl e \<Rightarrow> Inl e | Inr (found, v) \<Rightarrow> Inr v)"
    using getRos_default_delegates [of "[''k'' \<mapsto> PInt 100]" "''k''" I8 0 5 100,
        THEN conjunct2, THEN conjunct2]
    by simp
  have "getRosInt I8 [''k'' \<mapsto> PInt 100] ''k'' 0 = Inr (True, 100)"
    by (simp add: getRosInt_def getParam_int_def checkRange_def lt_c_def gt_c_def
        common_type_def promote_def conv_def lowest_def max_of_def)
  then show ?thesis using absent same present by simp
qed

theorem getRosUint_default_narrows_default:
  "getRosUint_default U8 Map.empty ''missing'' 0 300 = Inr 44 \<and> (44 :: int) \<noteq> 300"
  by (simp add: getRosUint_default_def getRosUint_def getParam_int_def conv_def)

section \<open>The typed parameter accessors: sequences\<close>

lemma checkRange_vec_limits:
  assumes "\<forall>v\<in>set vs. in_range T v"
  shows "checkRange_vec I32 vs T (lowest T) (max_of T) key = Inr ()"
  unfolding checkRange_vec_def
  by (rule checkRange_from_pass) (use assms in \<open>simp add: not_lt_c_lowest not_gt_c_max_of\<close>)

lemma map_conv_in_range: "\<forall>v\<in>set vs. in_range T v \<Longrightarrow> map (conv T) vs = vs"
  by (induction vs) (simp_all add: conv_id)

text \<open>
  On a stored sequence whose elements the target type represents, the sequence
  accessors succeed and put the stored sequence, in its order, in front of what
  the output vector holds.
\<close>

lemma getRos_vec_in_range:
  assumes "node key = Some (PIntList ws)" and "\<forall>w\<in>set ws. in_range T (sint w)"
  shows "getRosUint_vec T node key u = Inr (True, map sint ws @ u)"
    and "getRosInt_vec T node key u = Inr (True, map sint ws @ u)"
proof -
  from assms(2) have r: "\<forall>v\<in>set (map sint ws). in_range T v" by simp
  show "getRosUint_vec T node key u = Inr (True, map sint ws @ u)"
    using assms(1) checkRange_vec_limits [OF r] map_conv_in_range [OF r]
    by (simp add: getRosUint_vec_def getParam_vec_def)
  show "getRosInt_vec T node key u = Inr (True, map sint ws @ u)"
    using assms(1) checkRange_vec_limits [OF r] map_conv_in_range [OF r]
    by (simp add: getRosInt_vec_def getParam_vec_def)
qed

text \<open>
  Called with an empty output vector, the sequence accessors give the stored
  sequence: the same length and the same order.
\<close>

theorem getRos_vec_empty_output:
  "node key = Some (PIntList ws) \<and> (\<forall>w\<in>set ws. in_range T (sint w)) \<longrightarrow>
     getRosUint_vec T node key [] = Inr (True, map sint ws) \<and>
     getRosInt_vec T node key [] = Inr (True, map sint ws)"
  using getRos_vec_in_range [of node key ws T "[]"] by simp

theorem getRos_vec_empty_output_witness:
  "getRosUint_vec U8 [''k'' \<mapsto> PIntList [1, 2]] ''k'' [] = Inr (True, [1, 2]) \<and>
   getRosInt_vec U8 [''k'' \<mapsto> PIntList [1, 2]] ''k'' [] = Inr (True, [1, 2])"
  using getRos_vec_empty_output [of "[''k'' \<mapsto> PIntList [1, 2]]" "''k''" "[1, 2]" U8]
  by (simp add: in_range_def lowest_def max_of_def)

text \<open>
  C3. The output of the sequence accessors is to be the stored sequence,
  whatever the output vector held before. The stored sequence is inserted at
  the front of the vector and nothing is removed: with \<open>[1, 2]\<close> stored and
  an output vector holding \<open>[9]\<close>, the output is \<open>[1, 2, 9]\<close>, of length 3.
\<close>

theorem getRosUint_vec_keeps_prior_contents:
  "in_range U8 (sint (1 :: 32 word)) \<and> in_range U8 (sint (2 :: 32 word)) \<and>
   getRosUint_vec U8 [''k'' \<mapsto> PIntList [1, 2]] ''k'' [9] = Inr (True, [1, 2, 9]) \<and>
   [1, 2, 9] \<noteq> map sint [1, 2 :: 32 word]"
  by (simp add: getRosUint_vec_def getParam_vec_def checkRange_vec_def checkRange_from.simps
      checkRange_def lt_c_def gt_c_def common_type_def promote_def conv_def in_range_def
      lowest_def max_of_def)

section \<open>The boolean accessors\<close>

text \<open>
  C8. \<^verbatim>\<open>getRosBoolean\<close> raises exactly when the key is absent or holds a value
  that is not a boolean; the error is the message that names the parameter.
  Otherwise it returns the stored boolean.
\<close>

theorem getRosBoolean_required:
  "((\<exists>e. getRosBoolean node name = Inl e) \<longleftrightarrow>
      node name = None \<or> (\<exists>v. node name = Some v \<and> (\<forall>b. v \<noteq> PBool b))) \<and>
   (\<forall>e. getRosBoolean node name = Inl e \<longrightarrow>
      e = RuntimeError (''Required parameter '' @ [CHR 0x27] @ name @ [CHR 0x27] @
                        '' has the wrong type (expected bool)'')) \<and>
   (\<forall>b. node name = Some (PBool b) \<longrightarrow> getRosBoolean node name = Inr b)"
  by (auto simp: getRosBoolean_def getParam_bool_def wrong_type_def
      split: option.splits param.splits)

theorem getRosBoolean_required_witness:
  "getRosBoolean [''debug'' \<mapsto> PBool True] ''debug'' = Inr True \<and>
   getRosBoolean [''debug'' \<mapsto> PInt 1] ''debug'' =
     Inl (RuntimeError (''Required parameter '' @ [CHR 0x27] @ ''debug'' @ [CHR 0x27] @
                        '' has the wrong type (expected bool)''))"
proof -
  have stored: "getRosBoolean [''debug'' \<mapsto> PBool True] ''debug'' = Inr True"
    using getRosBoolean_required [of "[''debug'' \<mapsto> PBool True]" "''debug''",
        THEN conjunct2, THEN conjunct2, rule_format, of True]
    by simp
  have "\<exists>e. getRosBoolean [''debug'' \<mapsto> PInt 1] ''debug'' = Inl e"
    using getRosBoolean_required [of "[''debug'' \<mapsto> PInt 1]" "''debug''", THEN conjunct1]
    by simp
  then obtain e where e: "getRosBoolean [''debug'' \<mapsto> PInt 1] ''debug'' = Inl e" ..
  then have "e = RuntimeError (''Required parameter '' @ [CHR 0x27] @ ''debug'' @ [CHR 0x27] @
                        '' has the wrong type (expected bool)'')"
    using getRosBoolean_required [of "[''debug'' \<mapsto> PInt 1]" "''debug''",
        THEN conjunct2, THEN conjunct1]
    by blast
  with e stored show ?thesis by simp
qed

text \<open>
  What \<^verbatim>\<open>declareRosBoolean\<close> does to the store: it writes the default under
  an absent key and writes nothing under a present one; on a key that holds
  anything but a boolean it throws the error that names the parameter. A second
  call never changes the store again, and after two calls on an absent key the
  boolean read of the key finds the default of the first call.
\<close>

theorem declareRosBoolean_store:
  "(node name = None \<longrightarrow> fst (declareRosBoolean node name d) = node(name \<mapsto> PBool d)) \<and>
   (node name \<noteq> None \<longrightarrow> fst (declareRosBoolean node name d) = node) \<and>
   (\<forall>v. node name = Some v \<and> (\<forall>b. v \<noteq> PBool b) \<longrightarrow>
      snd (declareRosBoolean node name d) = Thrown (wrong_type name)) \<and>
   fst (declareRosBoolean (fst (declareRosBoolean node name d)) name d') =
     fst (declareRosBoolean node name d) \<and>
   (node name = None \<longrightarrow>
      getParam_bool (fst (declareRosBoolean (fst (declareRosBoolean node name d)) name d')) name =
        Some d)"
  by (auto simp: declareRosBoolean_def hasParam_def setParam_def getParam_bool_def Let_def
      split: option.splits param.splits)

theorem declareRosBoolean_store_witness:
  "fst (declareRosBoolean Map.empty ''debug'' True) = [''debug'' \<mapsto> PBool True] \<and>
   fst (declareRosBoolean [''debug'' \<mapsto> PBool True] ''debug'' False) =
     [''debug'' \<mapsto> PBool True] \<and>
   snd (declareRosBoolean [''debug'' \<mapsto> PInt 1] ''debug'' False) = Thrown (wrong_type ''debug'') \<and>
   getParam_bool (fst (declareRosBoolean [''debug'' \<mapsto> PBool True] ''debug'' False)) ''debug'' =
     Some True"
proof -
  have first: "fst (declareRosBoolean Map.empty ''debug'' True) = [''debug'' \<mapsto> PBool True]"
    using declareRosBoolean_store [of Map.empty "''debug''" True False, THEN conjunct1]
    by simp
  have kept: "fst (declareRosBoolean [''debug'' \<mapsto> PBool True] ''debug'' False) =
      [''debug'' \<mapsto> PBool True]"
    using declareRosBoolean_store [of "[''debug'' \<mapsto> PBool True]" "''debug''" False False,
        THEN conjunct2, THEN conjunct1]
    by simp
  have thrown: "snd (declareRosBoolean [''debug'' \<mapsto> PInt 1] ''debug'' False) =
      Thrown (wrong_type ''debug'')"
    using declareRosBoolean_store [of "[''debug'' \<mapsto> PInt 1]" "''debug''" False False,
        THEN conjunct2, THEN conjunct2, THEN conjunct1, rule_format, of "PInt 1"]
    by simp
  have "getParam_bool (fst (declareRosBoolean (fst (declareRosBoolean Map.empty ''debug'' True))
      ''debug'' False)) ''debug'' = Some True"
    using declareRosBoolean_store [of Map.empty "''debug''" True False,
        THEN conjunct2, THEN conjunct2, THEN conjunct2, THEN conjunct2]
    by simp
  then have seen: "getParam_bool (fst (declareRosBoolean [''debug'' \<mapsto> PBool True] ''debug''
      False)) ''debug'' = Some True"
    unfolding first .
  show ?thesis using first kept thrown seen by simp
qed


text \<open>
  C10. A call of \<^verbatim>\<open>declareRosBoolean\<close> that does not throw is to return a
  boolean. On an empty store the call seeds the key, finds the boolean it
  wrote, and reaches the end of the function body without a \<^verbatim>\<open>return\<close>
  statement: no value is returned.
\<close>

theorem declareRosBoolean_returns_nothing:
  "declareRosBoolean Map.empty ''debug'' True =
     ([''debug'' \<mapsto> PBool True], Undefined_behaviour)"
  by (simp add: declareRosBoolean_def hasParam_def setParam_def getParam_bool_def)

text \<open>No call of \<^verbatim>\<open>declareRosBoolean\<close> ends with a \<^verbatim>\<open>return\<close> statement.\<close>

lemma declareRosBoolean_never_returns: "snd (declareRosBoolean node name d) \<noteq> Returned b"
  by (simp add: declareRosBoolean_def Let_def split: option.splits)

section \<open>Calendar fields to epoch seconds\<close>

lemma div_pred:
  fixes y k :: int
  assumes "0 < k"
  shows "(y - 1) div k = (if y mod k = 0 then y div k - 1 else y div k)"
proof (cases "y mod k = 0")
  case True
  then have "k * (y div k) = y"
    using mult_div_mod_eq [of k y] by simp
  then have "y - 1 = k * (y div k - 1) + (k - 1)"
    by (simp add: algebra_simps)
  then have "(y - 1) div k = y div k - 1"
    by (rule int_div_pos_eq) (use assms in simp_all)
  with True show ?thesis by simp
next
  case False
  have "0 \<le> y mod k" "y mod k < k"
    using assms by simp_all
  with False have r: "0 \<le> y mod k - 1" "y mod k - 1 < k" by simp_all
  have "y - 1 = k * (y div k) + (y mod k - 1)"
    by simp
  then have "(y - 1) div k = y div k"
    using r by (rule int_div_pos_eq)
  with False show ?thesis by simp
qed

text \<open>The closed form of the day count follows the leap-year rule year by year.\<close>

lemma leap_years_upto_step:
  "leap_years_upto y = leap_years_upto (y - 1) + (if leap_year y then 1 else 0)"
proof -
  have a: "y mod 400 = 0 \<Longrightarrow> y mod 100 = 0"
    using dvd_trans [of 100 400 y] by (simp add: mod_eq_0_iff_dvd)
  have b: "y mod 100 = 0 \<Longrightarrow> y mod 4 = 0"
    using dvd_trans [of 4 100 y] by (simp add: mod_eq_0_iff_dvd)
  show ?thesis
    using a b
    by (auto simp: leap_years_upto_def leap_year_def div_pred [of 4 y] div_pred [of 100 y]
        div_pred [of 400 y])
qed

lemma days_before_year_step:
  "days_before_year (y + 1) = days_before_year y + (if leap_year y then 366 else 365)"
  using leap_years_upto_step [of y] by (simp add: days_before_year_def)

lemma leap_years_upto_bound: "400 * leap_years_upto x \<le> 97 * x + 396"
proof -
  have lin: "4 * a \<le> x \<Longrightarrow> x - 99 \<le> 100 * b \<Longrightarrow> 400 * c \<le> x \<Longrightarrow>
      400 * (a - b + c) \<le> 97 * x + 396" for a b c :: int
    by (simp add: algebra_simps)
  have "4 * (x div 4) \<le> x" "x - 99 \<le> 100 * (x div 100)" "400 * (x div 400) \<le> x"
    by simp_all
  then show ?thesis unfolding leap_years_upto_def by (rule lin)
qed

lemma days_before_year_nonpos:
  assumes "y \<le> 1970"
  shows "days_before_year y \<le> 0"
proof (cases "y = 1970")
  case True
  then show ?thesis by (simp add: days_before_year_def)
next
  case False
  have lin: "400 * l \<le> 97 * (y - 1) + 396 \<Longrightarrow> y \<le> 1969 \<Longrightarrow>
      365 * (y - 1970) + (l - 477) \<le> 0" for l :: int
    by (simp add: algebra_simps)
  have "leap_years_upto 1969 = 477" by (simp add: leap_years_upto_def)
  moreover have "y \<le> 1969" using assms False by simp
  ultimately show ?thesis
    using lin [OF leap_years_upto_bound [of "y - 1"]]
    by (simp add: days_before_year_def)
qed

lemma month_cases:
  assumes "1 \<le> m" "m \<le> 12"
  shows "m = 1 \<or> m = 2 \<or> m = 3 \<or> m = 4 \<or> m = 5 \<or> m = 6
    \<or> m = 7 \<or> m = 8 \<or> m = 9 \<or> m = 10 \<or> m = 11 \<or> m = (12 :: int)"
  using assms by arith

lemma days_before_month_table:
  "days_before_month y 0 = 0"
  "days_before_month y 1 = 31"
  "days_before_month y 2 = (if leap_year y then 60 else 59)"
  "days_before_month y 3 = (if leap_year y then 91 else 90)"
  "days_before_month y 4 = (if leap_year y then 121 else 120)"
  "days_before_month y 5 = (if leap_year y then 152 else 151)"
  "days_before_month y 6 = (if leap_year y then 182 else 181)"
  "days_before_month y 7 = (if leap_year y then 213 else 212)"
  "days_before_month y 8 = (if leap_year y then 244 else 243)"
  "days_before_month y 9 = (if leap_year y then 274 else 273)"
  "days_before_month y 10 = (if leap_year y then 305 else 304)"
  "days_before_month y 11 = (if leap_year y then 335 else 334)"
  by (simp_all add: days_before_month_def month_lengths_def)

lemma days_in_year_bound:
  assumes "1 \<le> m" "m \<le> 12" "1 \<le> d" "d \<le> 31"
  shows "days_before_month y (m - 1) + (d - 1) < (if leap_year y then 366 else 365)"
  using month_cases [OF assms(1,2)] assms(3,4)
  by (elim disjE) (simp_all add: days_before_month_table)

lemma mkgmtime_before_epoch:
  assumes "tm_year t + 1900 < 1970" "0 \<le> tm_mon t" "tm_mon t \<le> 11"
    "1 \<le> tm_mday t" "tm_mday t \<le> 31" "tm_hour t \<le> 23" "tm_min t \<le> 59" "tm_sec t \<le> 59"
  shows "mkgmtime t < 0"
proof -
  define y where "y = tm_year t + 1900"
  define days where "days = days_before_year y + days_before_month y (tm_mon t) + (tm_mday t - 1)"
  have "days_before_month y ((tm_mon t + 1) - 1) + (tm_mday t - 1) <
        (if leap_year y then 366 else 365)"
    using assms(2-5) by (intro days_in_year_bound) simp_all
  then have "days < days_before_year (y + 1)"
    by (simp add: days_def days_before_year_step)
  moreover have "days_before_year (y + 1) \<le> 0"
    using assms(1) by (intro days_before_year_nonpos) (simp add: y_def)
  ultimately have "days \<le> - 1" by simp
  then have "((days * 24 + tm_hour t) * 60 + tm_min t) * 60 + tm_sec t < 0"
    using assms(6-8) by simp
  then show ?thesis
    by (simp add: mkgmtime_def Let_def y_def days_def)
qed

lemma days_before_year_nonneg:
  assumes "1970 \<le> y"
  shows "0 \<le> days_before_year y"
  using assms
proof (induction y rule: int_ge_induct)
  case base
  then show ?case by (simp add: days_before_year_def)
next
  case (step i)
  then show ?case by (simp add: days_before_year_step)
qed

text \<open>The closed form of the model counts the days of the years as the spec does.\<close>

lemma days_before_year_counts_up:
  assumes "1970 \<le> y"
  shows "days_before_year y = (\<Sum>k\<leftarrow>[1970..y - 1]. year_length k)"
  using assms
proof (induction y rule: int_ge_induct)
  case base
  then show ?case by (simp add: days_before_year_def)
next
  case (step i)
  have "[1970..i + 1 - 1] = [1970..i - 1] @ [i]"
    using step.hyps upto_rec2 [of 1970 i] by simp
  then show ?case
    using step.IH by (simp add: days_before_year_step year_length_def)
qed

lemma days_before_year_counts_down:
  assumes "y \<le> 1970"
  shows "days_before_year y = - (\<Sum>k\<leftarrow>[y..1969]. year_length k)"
  using assms
proof (induction y rule: int_le_induct)
  case base
  then show ?case by (simp add: days_before_year_def)
next
  case (step i)
  have "[i - 1..1969] = (i - 1) # [i..1969]"
    using step.hyps upto_rec1 [of "i - 1" 1969] by simp
  moreover have "days_before_year i = days_before_year (i - 1) + year_length (i - 1)"
    using days_before_year_step [of "i - 1"] by (simp add: year_length_def)
  ultimately show ?case
    using step.IH by simp
qed

lemma upto_from_1: "1 \<le> j \<Longrightarrow> [1..j] = 1 # [2..j]"
  using upto_rec1 [of 1 j] by simp

lemma days_before_month_counts:
  assumes "1 \<le> m" "m \<le> 12"
  shows "days_before_month y (m - 1) = (\<Sum>k\<leftarrow>[1..m - 1]. month_length y k)"
  using month_cases [OF assms]
  by (elim disjE) (simp_all add: days_before_month_table month_length_def upto_from_1)

lemma mkgmtime_days:
  assumes "0 \<le> tm_mon t" "tm_mon t \<le> 11"
  shows "mkgmtime t =
    gregorian_utc_seconds (tm_year t + 1900) (tm_mon t + 1) (tm_mday t) (tm_hour t) (tm_min t)
      (tm_sec t)"
proof -
  have m: "days_before_month (tm_year t + 1900) (tm_mon t) =
      (\<Sum>k\<leftarrow>[1..tm_mon t]. month_length (tm_year t + 1900) k)"
    using days_before_month_counts [of "tm_mon t + 1" "tm_year t + 1900"] assms by simp
  show ?thesis
  proof (cases "1970 \<le> tm_year t + 1900")
    case True
    then show ?thesis
      using days_before_year_counts_up [of "tm_year t + 1900"] m
      by (simp add: mkgmtime_def gregorian_utc_seconds_def days_since_epoch_def Let_def)
  next
    case False
    then show ?thesis
      using days_before_year_counts_down [of "tm_year t + 1900"] m
      by (simp add: mkgmtime_def gregorian_utc_seconds_def days_since_epoch_def Let_def)
  qed
qed

lemma mkgmtime_from_epoch:
  assumes "1970 \<le> tm_year t + 1900" "0 \<le> tm_mon t" "tm_mon t \<le> 11"
    "1 \<le> tm_mday t" "0 \<le> tm_hour t" "0 \<le> tm_min t" "0 \<le> tm_sec t"
  shows "0 \<le> mkgmtime t"
proof -
  have "0 \<le> days_before_month (tm_year t + 1900) (tm_mon t)"
    using month_cases [of "tm_mon t + 1"] assms(2,3)
    by (auto simp: days_before_month_table)
  moreover have "0 \<le> days_before_year (tm_year t + 1900)"
    using assms(1) by (rule days_before_year_nonneg)
  ultimately show ?thesis
    using assms(4-7) by (simp add: mkgmtime_def Let_def)
qed

text \<open>
  C4. \<^verbatim>\<open>toUtcSeconds\<close> is the proleptic Gregorian conversion of its six
  calendar fields: at every message whose month is one of the twelve it gives
  the seconds of the days counted from 1970-01-01 with the leap-year rule,
  plus those of the hour, the minute and the second. It gives \<open>0\<close> at
  1970-01-01T00:00:00; at a date with its fields in their ranges it is
  negative exactly when the date is before 1970; and March 1 comes one day of
  seconds after February 29 in every leap year, of which 2000 is one, and
  after February 28 in every other year.
\<close>

theorem toUtcSeconds_gregorian:
  "(\<forall>msg. 1 \<le> month msg \<and> month msg \<le> 12 \<longrightarrow>
      toUtcSeconds msg =
        gregorian_utc_seconds (year msg) (month msg) (day msg) (hour msg) (min_f msg) (sec msg)) \<and>
   toUtcSeconds \<lparr>year = 1970, month = 1, day = 1, hour = 0, min_f = 0, sec = 0\<rparr> = 0 \<and>
   (\<forall>msg. calendar_fields msg \<longrightarrow> (toUtcSeconds msg < 0 \<longleftrightarrow> year msg < 1970)) \<and>
   toUtcSeconds \<lparr>year = 2000, month = 3, day = 1, hour = 0, min_f = 0, sec = 0\<rparr> =
     toUtcSeconds \<lparr>year = 2000, month = 2, day = 29, hour = 0, min_f = 0, sec = 0\<rparr> + 86400 \<and>
   (\<forall>y h mi s.
      toUtcSeconds \<lparr>year = y, month = 3, day = 1, hour = h, min_f = mi, sec = s\<rparr> =
        toUtcSeconds \<lparr>year = y, month = 2, day = (if leap_year y then 29 else 28), hour = h,
                       min_f = mi, sec = s\<rparr> + 86400) \<and>
   leap_year 2000 \<and> \<not> leap_year 1900"
proof (intro conjI allI impI)
  fix msg :: NavPVT
  assume "1 \<le> month msg \<and> month msg \<le> 12"
  then show "toUtcSeconds msg =
      gregorian_utc_seconds (year msg) (month msg) (day msg) (hour msg) (min_f msg) (sec msg)"
    unfolding toUtcSeconds_def by (subst mkgmtime_days) simp_all
next
  show "toUtcSeconds \<lparr>year = 1970, month = 1, day = 1, hour = 0, min_f = 0, sec = 0\<rparr> = 0"
    by (simp add: toUtcSeconds_def mkgmtime_def days_before_year_def leap_years_upto_def
        days_before_month_table)
next
  fix msg :: NavPVT
  assume c: "calendar_fields msg"
  show "toUtcSeconds msg < 0 \<longleftrightarrow> year msg < 1970"
  proof (cases "year msg < 1970")
    case True
    then have "toUtcSeconds msg < 0"
      using c unfolding toUtcSeconds_def calendar_fields_def
      by (intro mkgmtime_before_epoch) simp_all
    with True show ?thesis by simp
  next
    case False
    then have "0 \<le> toUtcSeconds msg"
      using c unfolding toUtcSeconds_def calendar_fields_def
      by (intro mkgmtime_from_epoch) simp_all
    with False show ?thesis by simp
  qed
next
  show "toUtcSeconds \<lparr>year = 2000, month = 3, day = 1, hour = 0, min_f = 0, sec = 0\<rparr> =
     toUtcSeconds \<lparr>year = 2000, month = 2, day = 29, hour = 0, min_f = 0, sec = 0\<rparr> + 86400"
    by (simp add: toUtcSeconds_def mkgmtime_def days_before_year_def leap_years_upto_def
        days_before_month_table leap_year_def)
next
  fix y h mi s
  show "toUtcSeconds \<lparr>year = y, month = 3, day = 1, hour = h, min_f = mi, sec = s\<rparr> =
        toUtcSeconds \<lparr>year = y, month = 2, day = (if leap_year y then 29 else 28), hour = h,
                       min_f = mi, sec = s\<rparr> + 86400"
    by (simp add: toUtcSeconds_def mkgmtime_def days_before_month_table)
next
  show "leap_year 2000" by (simp add: leap_year_def)
next
  show "\<not> leap_year 1900" by (simp add: leap_year_def)
qed

theorem toUtcSeconds_gregorian_witness:
  "toUtcSeconds \<lparr>year = 1970, month = 1, day = 2, hour = 1, min_f = 2, sec = 3\<rparr> = 90123 \<and>
   toUtcSeconds \<lparr>year = 1969, month = 12, day = 31, hour = 23, min_f = 59, sec = 59\<rparr> = - 1 \<and>
   toUtcSeconds \<lparr>year = 1969, month = 12, day = 31, hour = 23, min_f = 59, sec = 59\<rparr> < 0 \<and>
   \<not> toUtcSeconds \<lparr>year = 1970, month = 1, day = 2, hour = 1, min_f = 2, sec = 3\<rparr> < 0"
proof -
  have a: "toUtcSeconds \<lparr>year = 1970, month = 1, day = 2, hour = 1, min_f = 2, sec = 3\<rparr> = 90123"
    using toUtcSeconds_gregorian [THEN conjunct1, rule_format,
        of "\<lparr>year = 1970, month = 1, day = 2, hour = 1, min_f = 2, sec = 3\<rparr>"]
    by (simp add: gregorian_utc_seconds_def days_since_epoch_def)
  have b: "toUtcSeconds \<lparr>year = 1969, month = 12, day = 31, hour = 23, min_f = 59, sec = 59\<rparr> =
      - 1"
    using toUtcSeconds_gregorian [THEN conjunct1, rule_format,
        of "\<lparr>year = 1969, month = 12, day = 31, hour = 23, min_f = 59, sec = 59\<rparr>"]
    by (simp add: gregorian_utc_seconds_def days_since_epoch_def year_length_def
        month_length_def leap_year_def upto_from_1)
  have c: "toUtcSeconds \<lparr>year = 1969, month = 12, day = 31, hour = 23, min_f = 59, sec = 59\<rparr> < 0"
    using toUtcSeconds_gregorian [THEN conjunct2, THEN conjunct2, THEN conjunct1, rule_format,
        of "\<lparr>year = 1969, month = 12, day = 31, hour = 23, min_f = 59, sec = 59\<rparr>"]
    by (simp add: calendar_fields_def)
  have d: "\<not> toUtcSeconds \<lparr>year = 1970, month = 1, day = 2, hour = 1, min_f = 2, sec = 3\<rparr> < 0"
    using toUtcSeconds_gregorian [THEN conjunct2, THEN conjunct2, THEN conjunct1, rule_format,
        of "\<lparr>year = 1970, month = 1, day = 2, hour = 1, min_f = 2, sec = 3\<rparr>"]
    by (simp add: calendar_fields_def)
  show ?thesis using a b c d by simp
qed

end
